theory Spec2Isabelle
  imports Complex_Main "HOL-Library.Multiset"
begin

section \<open>PlaybackSync: the RoomVideoPlayer component\<close>

text \<open>
  The component keeps its state in React refs. Positions are JavaScript numbers and are
  modelled as reals (finite numbers only: NaN and the infinities are outside the model);
  wall-clock readings of \<^verbatim>\<open>Date.now()\<close> are integers, in milliseconds.
\<close>

definition SEEK_THRESHOLD :: real where
  "SEEK_THRESHOLD = 1.25"

definition UPDATE_THROTTLE_MS :: int where
  "UPDATE_THROTTLE_MS = 1500"

text \<open>
  A row of the remote playback table. \<open>updated_at\<close> is the parsed timestamp
  (\<^verbatim>\<open>new Date(row.updated_at).getTime()\<close>), \<open>None\<close> when the field is absent (falsy).
\<close>

record row =
  playback_time :: real
  is_playing :: bool
  updated_at :: "int option"

text \<open>
  The controls object that VideoPlayer registers. Its interface (VideoPlayerControls)
  requires \<^verbatim>\<open>seekTo\<close>, \<^verbatim>\<open>getCurrentTime\<close> and \<^verbatim>\<open>setPlaying\<close>, so the three
  \<^verbatim>\<open>typeof ... === "function"\<close> tests of the handler agree: each holds exactly when
  controls are attached. \<open>getCurrentTime\<close> is the position a call of
  \<^verbatim>\<open>getCurrentTime()\<close> returns.
\<close>

record controls =
  getCurrentTime :: real

text \<open>The refs of the component, with their initial values.\<close>

record rvp_state =
  lastSent :: int
  pendingSeek :: "real option"
  playerControl :: "controls option"
  isPlaying :: bool
  didInit :: bool
  suppressEcho :: bool

definition init_state :: rvp_state where
  "init_state = \<lparr> lastSent = 0, pendingSeek = None, playerControl = None,
     isPlaying = False, didInit = False, suppressEcho = False \<rparr>"

text \<open>The payload of \<^verbatim>\<open>sendLocalUpdate\<close>.\<close>

record update =
  u_video_url :: "string option"
  u_is_playing :: bool
  u_playback_time :: real
  u_client_ts :: int
  u_updated_by :: "string option"

text \<open>
  What a handler does to the outside, in program order: commands on the player, the
  timer that ends echo suppression after the given number of milliseconds, the outbound
  write, the callbacks of the parent and the console.
\<close>

datatype effect =
    SeekTo real
  | SetPlaying bool
  | SetTimeout nat
  | SendLocalUpdate update
  | OnTimeUpdate real
  | OnSeekComplete
  | ConsoleError

text \<open>The props the handlers read.\<close>

record props =
  effectiveUrl :: "string option"
  userId :: "string option"
  hasOnTimeUpdate :: bool
  hasOnSeekComplete :: bool

subsection \<open>The remote-update handler\<close>

text \<open>\<^verbatim>\<open>Number(x) || 0\<close> on a finite number: zero is falsy and is replaced by \<open>0\<close>.\<close>

definition number_or_zero :: "real \<Rightarrow> real" where
  "number_or_zero x = (if x = 0 then 0 else x)"

text \<open>
  Expected time: the stored time when paused; when playing, the time elapsed since
  \<open>updated_at\<close> is added (an absent \<open>updated_at\<close> is read as the present moment).
\<close>

definition expectedTime :: "int \<Rightarrow> row \<Rightarrow> real" where
  "expectedTime now r =
     (let base = number_or_zero (playback_time r) in
      if is_playing r then
        (let updatedAtMs = (case updated_at r of Some u \<Rightarrow> u | None \<Rightarrow> now);
             elapsedSec = real_of_int (now - updatedAtMs) / 1000
         in base + elapsedSec)
      else base)"

text \<open>The first row: seek to the saved time and stay paused; no drift logic.\<close>

definition hydrate :: "row \<Rightarrow> rvp_state \<Rightarrow> effect list \<times> rvp_state" where
  "hydrate r s =
     (let s1 = s\<lparr>didInit := True\<rparr>;
          initialTime = number_or_zero (playback_time r)
      in case playerControl s1 of
           Some c \<Rightarrow>
             ([SeekTo initialTime, SetPlaying False, SetTimeout 250],
              s1\<lparr>suppressEcho := True, isPlaying := False\<rparr>)
         | None \<Rightarrow> ([], s1\<lparr>pendingSeek := Some initialTime\<rparr>))"

text \<open>The seek step of the normal sync logic (the drift test).\<close>

definition seek_if_drift :: "real \<Rightarrow> rvp_state \<Rightarrow> effect list \<times> rvp_state" where
  "seek_if_drift expected s =
     (case playerControl s of
        Some c \<Rightarrow>
          (let localTime = getCurrentTime c;
               diff = \<bar>localTime - expected\<bar>
           in if diff > SEEK_THRESHOLD
              then ([SeekTo expected, SetTimeout 200], s\<lparr>suppressEcho := True\<rparr>)
              else ([], s))
      | None \<Rightarrow> ([], s\<lparr>pendingSeek := Some expected\<rparr>))"

text \<open>The play-state step, last in the handler.\<close>

definition sync_playing :: "bool \<Rightarrow> rvp_state \<Rightarrow> effect list \<times> rvp_state" where
  "sync_playing b s =
     ((case playerControl s of Some c \<Rightarrow> [SetPlaying b] | None \<Rightarrow> []),
      s\<lparr>isPlaying := b\<rparr>)"

definition reconcile :: "int \<Rightarrow> row \<Rightarrow> rvp_state \<Rightarrow> effect list \<times> rvp_state" where
  "reconcile now r s =
     (let (es1, s1) = seek_if_drift (expectedTime now r) s;
          (es2, s2) = sync_playing (is_playing r) s1
      in (es1 @ es2, s2))"

text \<open>Everything after the hydrate block: the echo guard, then the normal sync logic.\<close>

definition synced_update :: "int \<Rightarrow> row \<Rightarrow> rvp_state \<Rightarrow> effect list \<times> rvp_state" where
  "synced_update now r s = (if suppressEcho s then ([], s) else reconcile now r s)"

definition onRemoteUpdate :: "int \<Rightarrow> row option \<Rightarrow> rvp_state \<Rightarrow> effect list \<times> rvp_state" where
  "onRemoteUpdate now ro s =
     (case ro of
        None \<Rightarrow> ([], s)
      | Some r \<Rightarrow> if \<not> didInit s then hydrate r s else synced_update now r s)"

text \<open>The callback of both timers.\<close>

definition timer_fired :: "rvp_state \<Rightarrow> rvp_state" where
  "timer_fired s = s\<lparr>suppressEcho := False\<rparr>"

subsection \<open>The local reports\<close>

text \<open>
  \<^verbatim>\<open>try { await sendLocalUpdate(u) } catch (e) { console.error(...) }\<close>: the write is
  attempted; \<open>ok\<close> tells whether it succeeded.
\<close>

definition attempt_send :: "bool \<Rightarrow> update \<Rightarrow> effect list" where
  "attempt_send ok u = SendLocalUpdate u # (if ok then [] else [ConsoleError])"

definition forward_time :: "props \<Rightarrow> real \<Rightarrow> effect list" where
  "forward_time p t = (if hasOnTimeUpdate p then [OnTimeUpdate t] else [])"

definition handleLocalTimeUpdate ::
  "props \<Rightarrow> int \<Rightarrow> bool \<Rightarrow> real \<Rightarrow> rvp_state \<Rightarrow> effect list \<times> rvp_state" where
  "handleLocalTimeUpdate p now ok t s =
     (if now - lastSent s < UPDATE_THROTTLE_MS then (forward_time p t, s)
      else
        (let s1 = s\<lparr>lastSent := now\<rparr> in
         (forward_time p t @
          attempt_send ok \<lparr> u_video_url = effectiveUrl p, u_is_playing = isPlaying s1,
            u_playback_time = t, u_client_ts = now, u_updated_by = userId p \<rparr>,
          s1)))"

definition handleLocalPlayPause ::
  "props \<Rightarrow> int \<Rightarrow> bool \<Rightarrow> bool \<Rightarrow> real \<Rightarrow> rvp_state \<Rightarrow> effect list \<times> rvp_state" where
  "handleLocalPlayPause p now ok playing currentTime s =
     (let s1 = s\<lparr>isPlaying := playing\<rparr> in
      (attempt_send ok \<lparr> u_video_url = effectiveUrl p, u_is_playing = playing,
         u_playback_time = currentTime, u_client_ts = now, u_updated_by = userId p \<rparr>,
       s1))"

definition handleLocalSeek ::
  "props \<Rightarrow> int \<Rightarrow> bool \<Rightarrow> real \<Rightarrow> rvp_state \<Rightarrow> effect list \<times> rvp_state" where
  "handleLocalSeek p now ok t s =
     (forward_time p t @
      attempt_send ok \<lparr> u_video_url = effectiveUrl p, u_is_playing = isPlaying s,
        u_playback_time = t, u_client_ts = now, u_updated_by = userId p \<rparr>,
      s)"

definition setPlayerControls :: "controls \<Rightarrow> rvp_state \<Rightarrow> effect list \<times> rvp_state" where
  "setPlayerControls c s =
     (let s1 = s\<lparr>playerControl := Some c\<rparr> in
      case pendingSeek s1 of
        Some t \<Rightarrow> ([SeekTo t], s1\<lparr>pendingSeek := None\<rparr>)
      | None \<Rightarrow> ([], s1))"

text \<open>The effect that forwards an external seek request of the parent.\<close>

definition external_seek :: "props \<Rightarrow> real option \<Rightarrow> rvp_state \<Rightarrow> effect list \<times> rvp_state" where
  "external_seek p seekToTime s =
     (case seekToTime of
        None \<Rightarrow> ([], s)
      | Some t \<Rightarrow>
          (case playerControl s of
             Some c \<Rightarrow> (SeekTo t # (if hasOnSeekComplete p then [OnSeekComplete] else []), s)
           | None \<Rightarrow> ([], s\<lparr>pendingSeek := Some t\<rparr>)))"

subsection \<open>Runs of the component\<close>

text \<open>
  The component is driven by events, one handler at a time. \<open>PlayerTime\<close> is the
  player moving on by itself: it changes what \<^verbatim>\<open>getCurrentTime()\<close> returns.
\<close>

datatype event =
    Remote int "row option"
  | TimerFired
  | LocalTime int bool real
  | LocalPlayPause int bool bool real
  | LocalSeek int bool real
  | Register controls
  | ExternalSeek "real option"
  | PlayerTime real

fun step :: "props \<Rightarrow> event \<Rightarrow> rvp_state \<Rightarrow> effect list \<times> rvp_state" where
  "step p (Remote now ro) s = onRemoteUpdate now ro s"
| "step p TimerFired s = ([], timer_fired s)"
| "step p (LocalTime now ok t) s = handleLocalTimeUpdate p now ok t s"
| "step p (LocalPlayPause now ok b t) s = handleLocalPlayPause p now ok b t s"
| "step p (LocalSeek now ok t) s = handleLocalSeek p now ok t s"
| "step p (Register c) s = setPlayerControls c s"
| "step p (ExternalSeek t) s = external_seek p t s"
| "step p (PlayerTime t) s =
     ([], s\<lparr>playerControl := map_option (\<lambda>c. c\<lparr>getCurrentTime := t\<rparr>) (playerControl s)\<rparr>)"

text \<open>A run: the effects of each event, in order, and the final state.\<close>

fun run :: "props \<Rightarrow> event list \<Rightarrow> rvp_state \<Rightarrow> (event \<times> effect list) list \<times> rvp_state" where
  "run p [] s = ([], s)"
| "run p (e # es) s =
     (let (fx, s1) = step p e s; (tl, s2) = run p es s1 in ((e, fx) # tl, s2))"

text \<open>The seeks among some effects.\<close>

fun seeks :: "effect list \<Rightarrow> real list" where
  "seeks [] = []"
| "seeks (SeekTo t # es) = t # seeks es"
| "seeks (e # es) = seeks es"

text \<open>The times at which the periodic report wrote, in a run.\<close>

fun has_send :: "effect list \<Rightarrow> bool" where
  "has_send [] = False"
| "has_send (SendLocalUpdate u # es) = True"
| "has_send (e # es) = has_send es"




section \<open>StrokeSync: the Whiteboard component and the strokes route\<close>

subsection \<open>The drawing surface\<close>

text \<open>
  The 2D context of the browser, as far as the component uses it: the stroke colour, the
  current path (a list of subpaths, each a list of points) and the ink on the bitmap (the
  segments stroked so far, each with its colour). \<open>beginPath\<close> empties the path,
  \<open>moveTo\<close> opens a subpath, \<open>lineTo\<close> extends the last subpath (and opens one
  when there is none), \<open>stroke\<close> inks every segment of the current path, and
  \<open>clearRect\<close> over the whole canvas removes the ink.
\<close>

type_synonym pt = "real \<times> real"

record ctx =
  strokeStyle :: string
  path :: "pt list list"
  ink :: "(pt \<times> pt \<times> string) list"

definition beginPath :: "ctx \<Rightarrow> ctx" where
  "beginPath c = c\<lparr>path := []\<rparr>"

definition moveTo :: "real \<Rightarrow> real \<Rightarrow> ctx \<Rightarrow> ctx" where
  "moveTo x y c = c\<lparr>path := path c @ [[(x, y)]]\<rparr>"

definition lineTo :: "real \<Rightarrow> real \<Rightarrow> ctx \<Rightarrow> ctx" where
  "lineTo x y c =
     (if path c = [] then c\<lparr>path := [[(x, y)]]\<rparr>
      else c\<lparr>path := butlast (path c) @ [last (path c) @ [(x, y)]]\<rparr>)"

definition segments :: "string \<Rightarrow> pt list \<Rightarrow> (pt \<times> pt \<times> string) list" where
  "segments col sp = map (\<lambda>(a, b). (a, b, col)) (zip sp (tl sp))"

definition stroke :: "ctx \<Rightarrow> ctx" where
  "stroke c = c\<lparr>ink := ink c @ concat (map (segments (strokeStyle c)) (path c))\<rparr>"

definition clearRect :: "ctx \<Rightarrow> ctx" where
  "clearRect c = c\<lparr>ink := []\<rparr>"

subsection \<open>The component\<close>

record point =
  ptype :: string
  px :: real
  py :: real

record stroke_entry =
  e_points :: "point list"
  e_color :: string

text \<open>A document of the strokes collection (the Stroke model).\<close>

record stroke_doc =
  room_id :: int
  strokes :: "point list"
  color :: string
  created_at :: int
  created_by :: "string option"

text \<open>The payload of a \<^verbatim>\<open>draw_batch\<close> broadcast.\<close>

record batch =
  b_userId :: string
  b_points :: "point list"
  b_color :: string

text \<open>
  The refs and state of the component. \<open>contextRef\<close> is \<^verbatim>\<open>contextRef.current\<close>; the
  canvas element it was obtained from is present whenever it is.
\<close>

record wb_state =
  contextRef :: "ctx option"
  wb_userId :: string
  wb_roomId :: string
  strokesStore :: "stroke_entry list"
  currentColor :: string
  isConnected :: bool

text \<open>The loop of \<^verbatim>\<open>drawStroke\<close>, with its flag \<^verbatim>\<open>isNewPath\<close>.\<close>

fun draw_points :: "bool \<Rightarrow> point list \<Rightarrow> ctx \<Rightarrow> ctx" where
  "draw_points isNewPath [] c = c"
| "draw_points isNewPath (p # ps) c =
     (if ptype p = ''start'' \<or> isNewPath
      then draw_points False ps (moveTo (px p) (py p) (beginPath c))
      else if ptype p = ''move''
      then draw_points isNewPath ps (stroke (lineTo (px p) (py p) c))
      else draw_points isNewPath ps c)"

definition drawStroke :: "point list \<Rightarrow> string \<Rightarrow> ctx option \<Rightarrow> ctx option" where
  "drawStroke points col co =
     (case co of
        None \<Rightarrow> None
      | Some c \<Rightarrow>
          if points = [] then Some c
          else
            (let currentStrokeStyle = strokeStyle c;
                 c1 = c\<lparr>strokeStyle := col\<rparr>;
                 c2 = draw_points True points c1
             in Some (c2\<lparr>strokeStyle := currentStrokeStyle\<rparr>)))"

definition repaintAll :: "wb_state \<Rightarrow> wb_state" where
  "repaintAll s =
     (case contextRef s of
        None \<Rightarrow> s
      | Some c \<Rightarrow>
          s\<lparr>contextRef :=
              foldl (\<lambda>co e. drawStroke (e_points e) (e_color e) co) (Some c) (strokesStore s)\<rparr>)"

text \<open>The \<^verbatim>\<open>draw_batch\<close> broadcast handler.\<close>

definition on_draw_batch :: "batch \<Rightarrow> wb_state \<Rightarrow> wb_state" where
  "on_draw_batch b s =
     (if b_userId b = wb_userId s then s
      else s\<lparr>contextRef := drawStroke (b_points b) (b_color b) (contextRef s),
             strokesStore := strokesStore s @ [\<lparr>e_points = b_points b, e_color = b_color b\<rparr>]\<rparr>)"

text \<open>The \<^verbatim>\<open>clear\<close> broadcast handler.\<close>

definition on_clear :: "wb_state \<Rightarrow> wb_state" where
  "on_clear s =
     (case contextRef s of
        None \<Rightarrow> s
      | Some c \<Rightarrow> s\<lparr>contextRef := Some (clearRect c)\<rparr>)"

text \<open>
  \<^verbatim>\<open>setCurrentColor\<close>, with the effect that copies the colour into the context.
\<close>

definition setCurrentColor :: "string \<Rightarrow> wb_state \<Rightarrow> wb_state" where
  "setCurrentColor col s =
     s\<lparr>currentColor := col,
       contextRef := map_option (\<lambda>c. c\<lparr>strokeStyle := col\<rparr>) (contextRef s)\<rparr>"

text \<open>
  The subscribe callback runs in two parts, before and after its \<^verbatim>\<open>await\<close>s: the first
  marks the component connected, the second receives the answer of the strokes route
  (\<open>None\<close> when the request failed) and replays it.
\<close>

definition on_subscribed :: "wb_state \<Rightarrow> wb_state" where
  "on_subscribed s = s\<lparr>isConnected := True\<rparr>"

fun replay :: "stroke_doc list \<Rightarrow> wb_state \<Rightarrow> wb_state" where
  "replay [] s = s"
| "replay (d # ds) s =
     replay ds
       (s\<lparr>contextRef := drawStroke (strokes d) (color d) (contextRef s),
          strokesStore := strokesStore s @ [\<lparr>e_points = strokes d, e_color = color d\<rparr>]\<rparr>)"

definition on_strokes_loaded :: "stroke_doc list option \<Rightarrow> wb_state \<Rightarrow> wb_state" where
  "on_strokes_loaded res s =
     (case res of
        None \<Rightarrow> s
      | Some data \<Rightarrow>
          (let s1 = replay data s in
           if length data > 0 then setCurrentColor (color (last data)) s1 else s1))"

text \<open>
  The local clear. Without a context the first statement throws; \<open>ok\<close> tells whether
  the DELETE request succeeded.
\<close>

datatype wb_error = TypeError

datatype wb_effect =
    DeleteStrokes string
  | LogError
  | BroadcastClear string

definition clearCanvas :: "bool \<Rightarrow> wb_state \<Rightarrow> wb_error + (wb_effect list \<times> wb_state)" where
  "clearCanvas ok s =
     (case contextRef s of
        None \<Rightarrow> Inl TypeError
      | Some c \<Rightarrow>
          Inr (DeleteStrokes (wb_roomId s) # (if ok then [] else [LogError])
                 @ [BroadcastClear (wb_userId s)],
               s\<lparr>contextRef := Some (clearRect c)\<rparr>))"

subsection \<open>The strokes route\<close>

text \<open>
  \<^verbatim>\<open>Stroke.find({ room_id }).sort({ created_at: 1 })\<close> over the collection \<open>db\<close>; \<open>rid\<close>
  is the parsed room id.
\<close>

definition get_strokes :: "stroke_doc list \<Rightarrow> int \<Rightarrow> stroke_doc list" where
  "get_strokes db rid = sort_key created_at (filter (\<lambda>d. room_id d = rid) db)"

subsection \<open>Runs of the whiteboard\<close>

datatype wb_event =
    Subscribed
  | StrokesLoaded "stroke_doc list option"
  | DrawBatch batch
  | ClearEvent
  | LocalClear bool

fun wb_step :: "wb_event \<Rightarrow> wb_state \<Rightarrow> wb_state" where
  "wb_step Subscribed s = on_subscribed s"
| "wb_step (StrokesLoaded res) s = on_strokes_loaded res s"
| "wb_step (DrawBatch b) s = on_draw_batch b s"
| "wb_step ClearEvent s = on_clear s"
| "wb_step (LocalClear ok) s = (case clearCanvas ok s of Inl e \<Rightarrow> s | Inr (fx, s1) \<Rightarrow> s1)"

fun wb_run :: "wb_event list \<Rightarrow> wb_state \<Rightarrow> wb_state" where
  "wb_run [] s = s"
| "wb_run (e # es) s = wb_run es (wb_step e s)"

section \<open>Concrete inputs\<close>

definition p0 :: props where
  "p0 = \<lparr> effectiveUrl = None, userId = None, hasOnTimeUpdate = False,
     hasOnSeekComplete = False \<rparr>"

text \<open>
  The state inside the guard window that follows hydration: controls are attached, the
  first row has been applied and the player has moved to its position.
\<close>

definition guard_state :: rvp_state where
  "guard_state = snd (run p0 [Register \<lparr>getCurrentTime = 0\<rparr>,
      Remote 1000 (Some \<lparr>playback_time = 50, is_playing = False, updated_at = Some 0\<rparr>),
      PlayerTime 50] init_state)"

definition synced_state :: rvp_state where
  "synced_state = timer_fired guard_state"

definition blank_ctx :: ctx where
  "blank_ctx = \<lparr> strokeStyle = ''#3ecf8e'', path = [], ink = [] \<rparr>"

definition wb_init :: wb_state where
  "wb_init = \<lparr> contextRef = Some blank_ctx, wb_userId = ''me'', wb_roomId = ''1'',
     strokesStore = [], currentColor = ''#3ecf8e'', isConnected = False \<rparr>"

definition line_pts :: "point list" where
  "line_pts = [\<lparr>ptype = ''start'', px = 10, py = 10\<rparr>, \<lparr>ptype = ''move'', px = 20, py = 20\<rparr>]"

definition doc1 :: stroke_doc where
  "doc1 = \<lparr> room_id = 1, strokes = line_pts, color = ''#fff'', created_at = 5,
     created_by = None \<rparr>"

definition doc2 :: stroke_doc where
  "doc2 = \<lparr> room_id = 1,
     strokes = [\<lparr>ptype = ''start'', px = 0, py = 0\<rparr>, \<lparr>ptype = ''move'', px = 1, py = 2\<rparr>],
     color = ''#000'', created_at = 3, created_by = None \<rparr>"

definition live_batch :: batch where
  "live_batch = \<lparr> b_userId = ''peer'',
     b_points = [\<lparr>ptype = ''move'', px = 7, py = 7\<rparr>, \<lparr>ptype = ''move'', px = 8, py = 9\<rparr>],
     b_color = ''#f00'' \<rparr>"


definition used_ctx :: ctx where
  "used_ctx = \<lparr> strokeStyle = ''#3ecf8e'', path = [[(1, 1), (2, 2)]],
     ink = [((1, 1), (2, 2), ''#3ecf8e'')] \<rparr>"

text \<open>The whiteboard after the history \<open>[doc1]\<close> has been loaded.\<close>

definition drawn_state :: wb_state where
  "drawn_state = wb_run [StrokesLoaded (Some [doc1])] wb_init"

section \<open>Properties of PlaybackSync\<close>



lemma guard_state_eq:
  "guard_state = \<lparr> lastSent = 0, pendingSeek = None,
     playerControl = Some \<lparr>getCurrentTime = 50\<rparr>, isPlaying = False, didInit = True,
     suppressEcho = True \<rparr>"
  by (simp add: guard_state_def init_state_def onRemoteUpdate_def hydrate_def
      setPlayerControls_def number_or_zero_def)

lemma synced_state_eq:
  "synced_state = \<lparr> lastSent = 0, pendingSeek = None,
     playerControl = Some \<lparr>getCurrentTime = 50\<rparr>, isPlaying = False, didInit = True,
     suppressEcho = False \<rparr>"
  by (simp add: synced_state_def guard_state_eq timer_fired_def)

subsection \<open>Drift tolerance\<close>

text \<open>
  C1, as stated, fails inside the guard window that follows a seek: \<open>guard_state\<close> is
  reached from the initial state by attaching the controls and hydrating; the next row
  finds the player 50 seconds away from the expected position, and no seek is issued.
\<close>

theorem drift_seek_counterexample:
  "didInit guard_state
   \<and> playerControl guard_state = Some \<lparr>getCurrentTime = 50\<rparr>
   \<and> SEEK_THRESHOLD < \<bar>50 - expectedTime 1100
        \<lparr>playback_time = 100, is_playing = False, updated_at = Some 1050\<rparr>\<bar>
   \<and> seeks (fst (onRemoteUpdate 1100
        (Some \<lparr>playback_time = 100, is_playing = False, updated_at = Some 1050\<rparr>)
        guard_state)) = []"
  by (simp add: guard_state_eq onRemoteUpdate_def synced_update_def expectedTime_def
      number_or_zero_def SEEK_THRESHOLD_def)

text \<open>
  C1 (amended). After hydration, with the controls attached (so the local time is
  readable): while echo suppression is on, a row causes no seek; otherwise a drift of at
  most \<open>SEEK_THRESHOLD\<close> causes no seek, and a larger drift causes exactly one seek, to
  the expected position.
\<close>

theorem drift_tolerance:
  assumes "didInit s" and "playerControl s = Some c"
  shows "seeks (fst (onRemoteUpdate now (Some r) s)) =
     (if suppressEcho s then []
      else if \<bar>getCurrentTime c - expectedTime now r\<bar> \<le> SEEK_THRESHOLD then []
      else [expectedTime now r])"
  using assms
  by (simp add: onRemoteUpdate_def synced_update_def reconcile_def seek_if_drift_def
      sync_playing_def Let_def)

theorem drift_tolerance_witness:
  "didInit synced_state
   \<and> playerControl synced_state = Some \<lparr>getCurrentTime = 50\<rparr>
   \<and> seeks (fst (onRemoteUpdate 5000
        (Some \<lparr>playback_time = 100, is_playing = False, updated_at = Some 1050\<rparr>)
        synced_state)) = [100]"
proof -
  have h1: "didInit synced_state" by (simp add: synced_state_eq)
  have h2: "playerControl synced_state = Some \<lparr>getCurrentTime = 50\<rparr>"
    by (simp add: synced_state_eq)
  have h3: "\<not> suppressEcho synced_state" by (simp add: synced_state_eq)
  show ?thesis
    using h1 h2 h3
      drift_tolerance [OF h1 h2, of 5000
        "\<lparr>playback_time = 100, is_playing = False, updated_at = Some 1050\<rparr>"]
    by (simp add: expectedTime_def number_or_zero_def SEEK_THRESHOLD_def)
qed

subsection \<open>Expected position\<close>



subsection \<open>Hydration\<close>








subsection \<open>Play state is reconciled last\<close>

text \<open>
  C4, as stated, fails inside the guard window: the row that asks for playback is
  dropped, no command reaches the player and the play-state memory stays paused.
\<close>

theorem play_state_counterexample:
  "didInit guard_state \<and> suppressEcho guard_state \<and> \<not> isPlaying guard_state
   \<and> onRemoteUpdate 1100
        (Some \<lparr>playback_time = 50, is_playing = True, updated_at = Some 1050\<rparr>) guard_state
       = ([], guard_state)"
  by (simp add: guard_state_eq onRemoteUpdate_def synced_update_def)

text \<open>
  C4 (amended). After hydration, a row that arrives while echo suppression is on is
  dropped whole: no command is issued and the state, the play-state memory included,
  stays as it was. Outside the guard window every row sets the play-state memory to the
  row's play state, whatever the drift; with controls attached the last command of the
  handler is \<open>SetPlaying\<close> with that state, after the seek and its timer when there is
  a seek; without controls no command is issued.
\<close>

theorem play_state_last:
  assumes "didInit s"
  shows "if suppressEcho s
         then onRemoteUpdate now (Some r) s = ([], s)
         else isPlaying (snd (onRemoteUpdate now (Some r) s)) = is_playing r
            \<and> fst (onRemoteUpdate now (Some r) s) =
                (case playerControl s of
                   None \<Rightarrow> []
                 | Some c \<Rightarrow>
                     (if \<bar>getCurrentTime c - expectedTime now r\<bar> > SEEK_THRESHOLD
                      then [SeekTo (expectedTime now r), SetTimeout 200] else [])
                     @ [SetPlaying (is_playing r)])"
  using assms
  by (auto simp add: onRemoteUpdate_def synced_update_def reconcile_def seek_if_drift_def
      sync_playing_def Let_def split: option.splits)

theorem play_state_last_witness:
  "didInit synced_state \<and> \<not> suppressEcho synced_state
   \<and> onRemoteUpdate 5000
        (Some \<lparr>playback_time = 100, is_playing = True, updated_at = Some 5000\<rparr>) synced_state
       = ([SeekTo 100, SetTimeout 200, SetPlaying True],
          synced_state\<lparr>suppressEcho := True, isPlaying := True\<rparr>)
   \<and> didInit guard_state \<and> suppressEcho guard_state
   \<and> onRemoteUpdate 1200
        (Some \<lparr>playback_time = 80, is_playing = True, updated_at = Some 1150\<rparr>) guard_state
       = ([], guard_state)"
proof -
  have h1: "didInit synced_state" by (simp add: synced_state_eq)
  have h2: "\<not> suppressEcho synced_state" by (simp add: synced_state_eq)
  have g1: "didInit guard_state" by (simp add: guard_state_eq)
  have g2: "suppressEcho guard_state" by (simp add: guard_state_eq)
  have st: "snd (onRemoteUpdate 5000
        (Some \<lparr>playback_time = 100, is_playing = True, updated_at = Some 5000\<rparr>) synced_state)
      = synced_state\<lparr>suppressEcho := True, isPlaying := True\<rparr>"
    by (simp add: synced_state_eq onRemoteUpdate_def synced_update_def reconcile_def
        seek_if_drift_def sync_playing_def expectedTime_def number_or_zero_def
        SEEK_THRESHOLD_def)
  have fx: "fst (onRemoteUpdate 5000
        (Some \<lparr>playback_time = 100, is_playing = True, updated_at = Some 5000\<rparr>) synced_state)
      = [SeekTo 100, SetTimeout 200, SetPlaying True]"
    using play_state_last [OF h1, of 5000
        "\<lparr>playback_time = 100, is_playing = True, updated_at = Some 5000\<rparr>"]
    by (simp add: synced_state_eq expectedTime_def number_or_zero_def SEEK_THRESHOLD_def)
  have dropped: "onRemoteUpdate 1200
        (Some \<lparr>playback_time = 80, is_playing = True, updated_at = Some 1150\<rparr>) guard_state
       = ([], guard_state)"
    using play_state_last [OF g1, of 1200
        "\<lparr>playback_time = 80, is_playing = True, updated_at = Some 1150\<rparr>"] g2
    by simp
  show ?thesis using h1 h2 g1 g2 st fx dropped by (simp add: prod_eq_iff)
qed

subsection \<open>The throttle of the periodic report\<close>








subsection \<open>The play/pause report\<close>

text \<open>
  C9. Every play/pause report attempts exactly one write, whatever \<open>lastSent\<close> is (the
  throttle is not consulted), carrying the reported play state; the play-state memory
  holds the reported state when the write is attempted, and keeps it when the write
  fails.
\<close>

theorem play_pause_always_sent:
  "handleLocalPlayPause p now ok playing t s =
     (SendLocalUpdate \<lparr> u_video_url = effectiveUrl p, u_is_playing = playing,
         u_playback_time = t, u_client_ts = now, u_updated_by = userId p \<rparr>
      # (if ok then [] else [ConsoleError]),
      s\<lparr>isPlaying := playing\<rparr>)"
  by (simp add: handleLocalPlayPause_def attempt_send_def)

theorem play_pause_always_sent_witness:
  "3100 - lastSent (init_state\<lparr>lastSent := 3000\<rparr>) < UPDATE_THROTTLE_MS
   \<and> \<not> has_send (fst (handleLocalTimeUpdate p0 3100 True 7 (init_state\<lparr>lastSent := 3000\<rparr>)))
   \<and> handleLocalPlayPause p0 3100 False True 7 (init_state\<lparr>lastSent := 3000\<rparr>) =
       ([SendLocalUpdate \<lparr> u_video_url = None, u_is_playing = True, u_playback_time = 7,
           u_client_ts = 3100, u_updated_by = None \<rparr>, ConsoleError],
        init_state\<lparr>lastSent := 3000, isPlaying := True\<rparr>)"
  using play_pause_always_sent [of p0 3100 False True 7 "init_state\<lparr>lastSent := 3000\<rparr>"]
  by (simp add: init_state_def p0_def handleLocalTimeUpdate_def forward_time_def
      UPDATE_THROTTLE_MS_def)

section \<open>Properties of StrokeSync\<close>

lemmas canvas_defs = beginPath_def moveTo_def lineTo_def stroke_def segments_def clearRect_def

lemma drawn_state_eq:
  "drawn_state = \<lparr> contextRef = Some \<lparr> strokeStyle = ''#fff'', path = [[(10, 10), (20, 20)]],
        ink = [((10, 10), (20, 20), ''#fff'')] \<rparr>,
     wb_userId = ''me'', wb_roomId = ''1'',
     strokesStore = [\<lparr>e_points = line_pts, e_color = ''#fff''\<rparr>],
     currentColor = ''#fff'', isConnected = False \<rparr>"
  by (simp add: drawn_state_def wb_init_def blank_ctx_def doc1_def line_pts_def
      on_strokes_loaded_def setCurrentColor_def drawStroke_def canvas_defs Let_def)

lemma replay_store:
  "strokesStore (replay ds s) =
     strokesStore s @ map (\<lambda>d. \<lparr>e_points = strokes d, e_color = color d\<rparr>) ds"
  by (induction ds arbitrary: s) auto

subsection \<open>Self-echo suppression\<close>

text \<open>
  C5. A \<^verbatim>\<open>draw_batch\<close> whose sender is the local participant leaves the whole state of
  the whiteboard as it was: nothing is drawn, nothing is appended to the stroke list.
\<close>

theorem self_echo_ignored: "b_userId b = wb_userId s \<Longrightarrow> on_draw_batch b s = s"
  by (simp add: on_draw_batch_def)

theorem self_echo_ignored_witness:
  "b_userId (live_batch\<lparr>b_userId := ''me''\<rparr>) = wb_userId drawn_state
   \<and> on_draw_batch (live_batch\<lparr>b_userId := ''me''\<rparr>) drawn_state = drawn_state
   \<and> on_draw_batch live_batch drawn_state \<noteq> drawn_state"
proof -
  have h: "b_userId (live_batch\<lparr>b_userId := ''me''\<rparr>) = wb_userId drawn_state"
    by (simp add: drawn_state_eq)
  have d: "strokesStore (on_draw_batch live_batch drawn_state) \<noteq> strokesStore drawn_state"
    by (simp add: on_draw_batch_def live_batch_def drawn_state_eq)
  then have "on_draw_batch live_batch drawn_state \<noteq> drawn_state" by auto
  then show ?thesis using h self_echo_ignored [OF h] by simp
qed

subsection \<open>Clearing\<close>

text \<open>
  A received clear event changes nothing but the ink, which it wipes; the stroke list
  stays as it was.
\<close>

lemma on_clear_keeps_store:
  "on_clear s = s\<lparr>contextRef := map_option clearRect (contextRef s)\<rparr>
   \<and> strokesStore (on_clear s) = strokesStore s
   \<and> map_option ink (contextRef (on_clear s)) = map_option (\<lambda>c. []) (contextRef s)"
  by (auto simp: on_clear_def clearRect_def split: option.splits)

text \<open>No event of the whiteboard ever removes an entry of the stroke list.\<close>

lemma store_only_grows: "\<exists>more. strokesStore (wb_step e s) = strokesStore s @ more"
  by (cases e)
     (auto simp: on_subscribed_def on_strokes_loaded_def setCurrentColor_def replay_store
        on_draw_batch_def on_clear_def clearCanvas_def Let_def
        split: option.splits sum.splits)

text \<open>
  C6. The local clear does not do what the claim asks when the durable delete succeeds.
  On the whiteboard that holds the one stored stroke of \<open>doc1\<close>, the clear wipes the
  ink, sends the delete and the broadcast, and the delete succeeds; the stroke list
  still holds the stroke, while the store holds none, and the repaint that follows a
  resize draws the cleared line again.
\<close>

theorem clear_success_keeps_list:
  "clearCanvas True drawn_state =
     Inr ([DeleteStrokes ''1'', BroadcastClear ''me''], wb_step (LocalClear True) drawn_state)
   \<and> strokesStore (wb_step (LocalClear True) drawn_state)
       = [\<lparr>e_points = line_pts, e_color = ''#fff''\<rparr>]
   \<and> map_option ink (contextRef (wb_step (LocalClear True) drawn_state)) = Some []
   \<and> map_option ink (contextRef (repaintAll (wb_step (LocalClear True) drawn_state)))
       = Some [((10, 10), (20, 20), ''#fff'')]"
  by (simp add: drawn_state_eq clearCanvas_def repaintAll_def drawStroke_def line_pts_def
      canvas_defs Let_def)

subsection \<open>History on join\<close>

lemma replay_context:
  "contextRef (replay ds s) =
     foldl (\<lambda>co d. drawStroke (strokes d) (color d) co) (contextRef s) ds"
  by (induction ds arbitrary: s) auto

lemma get_strokes_sorted: "sorted (map created_at (get_strokes db rid))"
  by (simp add: get_strokes_def)

lemma get_strokes_mset:
  "mset (get_strokes db rid) = filter_mset (\<lambda>d. room_id d = rid) (mset db)"
  by (simp add: get_strokes_def)

lemma get_strokes_example: "get_strokes [doc1, doc2] 1 = [doc2, doc1]"
  by (simp add: get_strokes_def doc1_def doc2_def)

text \<open>
  C7, as stated, fails for a broadcast that arrives between the subscription and the
  answer of the strokes route: it is drawn and appended at once, and the history is
  replayed after it.
\<close>

theorem history_after_live_counterexample:
  "strokesStore (wb_run [Subscribed, DrawBatch live_batch] wb_init)
     = [\<lparr>e_points = b_points live_batch, e_color = ''#f00''\<rparr>]
   \<and> map_option ink (contextRef (wb_run [Subscribed, DrawBatch live_batch] wb_init))
     = Some [((7, 7), (8, 9), ''#f00'')]
   \<and> strokesStore (wb_run [Subscribed, DrawBatch live_batch,
        StrokesLoaded (Some (get_strokes [doc1, doc2] 1))] wb_init)
     = [\<lparr>e_points = b_points live_batch, e_color = ''#f00''\<rparr>,
        \<lparr>e_points = strokes doc2, e_color = ''#000''\<rparr>,
        \<lparr>e_points = strokes doc1, e_color = ''#fff''\<rparr>]"
  unfolding get_strokes_example
  by (simp add: wb_init_def blank_ctx_def on_subscribed_def
      on_draw_batch_def live_batch_def on_strokes_loaded_def replay_store doc1_def doc2_def
      setCurrentColor_def drawStroke_def canvas_defs Let_def)

text \<open>
  C7 (amended). The strokes route returns exactly the strokes of the room, in ascending
  order of \<open>created_at\<close>. When its answer arrives, every stroke of it is drawn and
  appended to the stroke list, in the order of the answer and in one step, after
  whatever was drawn and stored before.
\<close>

theorem history_replay_order:
  "sorted (map created_at (get_strokes db rid))
   \<and> mset (get_strokes db rid) = filter_mset (\<lambda>d. room_id d = rid) (mset db)
   \<and> strokesStore (on_strokes_loaded (Some ds) s) =
       strokesStore s @ map (\<lambda>d. \<lparr>e_points = strokes d, e_color = color d\<rparr>) ds
   \<and> map_option ink (contextRef (on_strokes_loaded (Some ds) s)) =
       map_option ink (foldl (\<lambda>co d. drawStroke (strokes d) (color d) co) (contextRef s) ds)"
proof -
  have "map_option ink (contextRef (on_strokes_loaded (Some ds) s)) =
       map_option ink (contextRef (replay ds s))"
    by (simp add: on_strokes_loaded_def setCurrentColor_def Let_def option.map_comp comp_def)
  moreover have "strokesStore (on_strokes_loaded (Some ds) s) = strokesStore (replay ds s)"
    by (simp add: on_strokes_loaded_def setCurrentColor_def Let_def)
  ultimately show ?thesis
    by (simp add: get_strokes_sorted get_strokes_mset replay_store replay_context)
qed

theorem history_replay_order_witness:
  "get_strokes [doc1, doc2] 1 = [doc2, doc1]
   \<and> map created_at [doc2, doc1] = [3, 5]
   \<and> strokesStore (on_strokes_loaded (Some (get_strokes [doc1, doc2] 1)) wb_init) =
       [\<lparr>e_points = strokes doc2, e_color = ''#000''\<rparr>,
        \<lparr>e_points = strokes doc1, e_color = ''#fff''\<rparr>]
   \<and> map_option ink (contextRef (on_strokes_loaded (Some (get_strokes [doc1, doc2] 1)) wb_init))
       = Some [((0, 0), (1, 2), ''#000''), ((10, 10), (20, 20), ''#fff'')]"
proof -
  have g: "get_strokes [doc1, doc2] 1 = [doc2, doc1]" by (rule get_strokes_example)
  have st: "strokesStore (on_strokes_loaded (Some [doc2, doc1]) wb_init) =
       strokesStore wb_init @ map (\<lambda>d. \<lparr>e_points = strokes d, e_color = color d\<rparr>) [doc2, doc1]"
    using history_replay_order [of "[doc1, doc2]" 1 "[doc2, doc1]" wb_init] by blast
  have ik: "map_option ink (contextRef (on_strokes_loaded (Some [doc2, doc1]) wb_init)) =
       map_option ink
         (foldl (\<lambda>co d. drawStroke (strokes d) (color d) co) (contextRef wb_init) [doc2, doc1])"
    using history_replay_order [of "[doc1, doc2]" 1 "[doc2, doc1]" wb_init] by blast
  have f: "map_option ink
         (foldl (\<lambda>co d. drawStroke (strokes d) (color d) co) (contextRef wb_init) [doc2, doc1])
       = Some [((0, 0), (1, 2), ''#000''), ((10, 10), (20, 20), ''#fff'')]"
    by (simp add: wb_init_def blank_ctx_def doc1_def doc2_def line_pts_def
        drawStroke_def canvas_defs Let_def)
  have c: "map created_at [doc2, doc1] = [3, 5]" by (simp add: doc1_def doc2_def)
  have e: "strokesStore wb_init = []" by (simp add: wb_init_def)
  show ?thesis unfolding g using st ik f c e by (simp add: doc1_def doc2_def)
qed

subsection \<open>Drawing a stroke\<close>

lemma segments_within:
  "set sp \<subseteq> P \<Longrightarrow> (a, b, k) \<in> set (segments col sp) \<Longrightarrow> a \<in> P \<and> b \<in> P \<and> k = col"
proof -
  assume sub: "set sp \<subseteq> P" and mem: "(a, b, k) \<in> set (segments col sp)"
  from mem have z: "(a, b) \<in> set (zip sp (tl sp))" and k: "k = col"
    by (auto simp: segments_def)
  from z have "a \<in> set sp" by (rule set_zip_leftD)
  moreover from z have "b \<in> set (tl sp)" by (rule set_zip_rightD)
  then have "b \<in> set sp" by (cases sp) auto
  ultimately show ?thesis using sub k by auto
qed

text \<open>
  While the loop runs, every point of the current path is one of the points \<open>P\<close>
  handed to it, so every segment it inks joins two of them.
\<close>

lemma draw_points_ink:
  assumes "\<forall>sp \<in> set (path c). set sp \<subseteq> P" and "(\<lambda>q. (px q, py q)) ` set ps \<subseteq> P"
  shows "\<exists>new. ink (draw_points b ps c) = ink c @ new
           \<and> (\<forall>(a, b, k) \<in> set new. a \<in> P \<and> b \<in> P \<and> k = strokeStyle c)
           \<and> strokeStyle (draw_points b ps c) = strokeStyle c"
  using assms
proof (induction ps arbitrary: c b)
  case Nil
  then show ?case by simp
next
  case (Cons p ps)
  have pin: "(px p, py p) \<in> P" and rest: "(\<lambda>q. (px q, py q)) ` set ps \<subseteq> P"
    using Cons.prems(2) by auto
  show ?case
  proof (cases "ptype p = ''start'' \<or> b")
    case True
    let ?c1 = "moveTo (px p) (py p) (beginPath c)"
    have inv: "\<forall>sp \<in> set (path ?c1). set sp \<subseteq> P"
      using pin by (simp add: moveTo_def beginPath_def)
    from Cons.IH [OF inv rest, of False] True show ?thesis
      by (simp add: moveTo_def beginPath_def)
  next
    case False
    show ?thesis
    proof (cases "ptype p = ''move''")
      case mv: True
      let ?c0 = "lineTo (px p) (py p) c"
      let ?c1 = "stroke ?c0"
      have inv0: "\<forall>sp \<in> set (path ?c0). set sp \<subseteq> P"
      proof (cases "path c = []")
        case True
        then show ?thesis using pin by (simp add: lineTo_def)
      next
        case ne: False
        then have "set (last (path c)) \<subseteq> P" using Cons.prems(1) by simp
        moreover have "\<forall>sp \<in> set (butlast (path c)). set sp \<subseteq> P"
          using Cons.prems(1) by (meson in_set_butlastD)
        ultimately show ?thesis using pin ne by (auto simp: lineTo_def)
      qed
      then have inv: "\<forall>sp \<in> set (path ?c1). set sp \<subseteq> P" by (simp add: stroke_def)
      have st: "strokeStyle ?c1 = strokeStyle c" by (simp add: stroke_def lineTo_def)
      have added: "\<forall>(a, b, k) \<in> set (concat (map (segments (strokeStyle c)) (path ?c0))).
                      a \<in> P \<and> b \<in> P \<and> k = strokeStyle c"
        using inv0 by (auto dest: segments_within)
      have ink1: "ink ?c1 = ink c @ concat (map (segments (strokeStyle c)) (path ?c0))"
        by (simp add: stroke_def lineTo_def)
      from Cons.IH [OF inv rest, of b] obtain new where
        n: "ink (draw_points b ps ?c1) = ink ?c1 @ new"
           "\<forall>(a, b, k) \<in> set new. a \<in> P \<and> b \<in> P \<and> k = strokeStyle ?c1"
           "strokeStyle (draw_points b ps ?c1) = strokeStyle ?c1" by blast
      show ?thesis
        using False mv n added st ink1
        by (intro exI [of _ "concat (map (segments (strokeStyle c)) (path ?c0)) @ new"]) auto
    next
      case other: False
      from Cons.IH [OF Cons.prems(1) rest, of b] False other show ?thesis by simp
    qed
  qed
qed

lemma drawStroke_cons:
  "drawStroke (p # ps) col (Some c) =
     Some ((draw_points False ps (moveTo (px p) (py p) (beginPath (c\<lparr>strokeStyle := col\<rparr>))))
             \<lparr>strokeStyle := strokeStyle c\<rparr>)"
  by (simp add: drawStroke_def Let_def)

text \<open>
  C10. On an empty point list, or without a context, \<open>drawStroke\<close> changes nothing (and
  it has no failing case). On a non-empty list it begins a new path and moves to the
  first point, whatever the kind of that point is, before it runs the loop on the rest:
  the result does not depend on the kind of the first point. The ink it adds consists
  of segments in the given colour between points of the list, so nothing is joined to
  the path or the drawing that was there before.
\<close>

theorem drawStroke_fresh_path:
  "drawStroke [] col co = co
   \<and> drawStroke ps col None = None
   \<and> drawStroke (p # ps) col (Some c) =
       Some ((draw_points False ps (moveTo (px p) (py p) (beginPath (c\<lparr>strokeStyle := col\<rparr>))))
               \<lparr>strokeStyle := strokeStyle c\<rparr>)
   \<and> drawStroke (p\<lparr>ptype := k\<rparr> # ps) col co = drawStroke (p # ps) col co
   \<and> (\<exists>new. map_option ink (drawStroke (p # ps) col (Some c)) = Some (ink c @ new)
         \<and> (\<forall>(a, b, k) \<in> set new.
               a \<in> (\<lambda>q. (px q, py q)) ` set (p # ps)
             \<and> b \<in> (\<lambda>q. (px q, py q)) ` set (p # ps) \<and> k = col))"
proof -
  let ?P = "(\<lambda>q. (px q, py q)) ` set (p # ps)"
  let ?c1 = "moveTo (px p) (py p) (beginPath (c\<lparr>strokeStyle := col\<rparr>))"
  have a: "drawStroke [] col co = co" by (simp add: drawStroke_def split: option.splits)
  have b: "drawStroke ps col None = None" by (simp add: drawStroke_def)
  have d: "drawStroke (p\<lparr>ptype := k\<rparr> # ps) col co = drawStroke (p # ps) col co"
    by (simp add: drawStroke_def Let_def split: option.splits)
  have inv: "\<forall>sp \<in> set (path ?c1). set sp \<subseteq> ?P" by (simp add: moveTo_def beginPath_def)
  have rest: "(\<lambda>q. (px q, py q)) ` set ps \<subseteq> ?P" by auto
  from draw_points_ink [OF inv rest, of False] obtain new where
    n: "ink (draw_points False ps ?c1) = ink ?c1 @ new"
       "\<forall>(a, b, k) \<in> set new. a \<in> ?P \<and> b \<in> ?P \<and> k = strokeStyle ?c1" by blast
  have e: "\<exists>new. map_option ink (drawStroke (p # ps) col (Some c)) = Some (ink c @ new)
         \<and> (\<forall>(a, b, k) \<in> set new. a \<in> ?P \<and> b \<in> ?P \<and> k = col)"
    using n by (intro exI [of _ new]) (simp add: drawStroke_cons moveTo_def beginPath_def)
  show ?thesis using a b d e drawStroke_cons by blast
qed

theorem drawStroke_fresh_path_witness:
  "b_points live_batch =
     [\<lparr>ptype = ''move'', px = 7, py = 7\<rparr>, \<lparr>ptype = ''move'', px = 8, py = 9\<rparr>]
   \<and> path used_ctx = [[(1, 1), (2, 2)]]
   \<and> drawStroke (b_points live_batch) ''#f00'' (Some used_ctx) =
       Some \<lparr> strokeStyle = ''#3ecf8e'', path = [[(7, 7), (8, 9)]],
              ink = [((1, 1), (2, 2), ''#3ecf8e''), ((7, 7), (8, 9), ''#f00'')] \<rparr>"
  using drawStroke_fresh_path [of "''#f00''" "Some used_ctx"
      "[\<lparr>ptype = ''move'', px = 8, py = 9\<rparr>]" "\<lparr>ptype = ''move'', px = 7, py = 7\<rparr>"
      used_ctx "''move''"]
  by (simp add: live_batch_def used_ctx_def canvas_defs)

end
